theory Spec2Isabelle
  imports Complex_Main "HOL-Library.Sublist" "HOL-Library.Char_ord" "HOL-Library.List_Lexorder" "HOL-Library.AList"
begin

section \<open>Python values shared by the components\<close>

text \<open>
  Strings are lists of 8-bit characters (UTF-8 bytes). The string operations of the
  source that the components rely on (\<open>strip\<close>, \<open>upper\<close>, \<open>lower\<close>, \<open>\d\<close>) are modelled
  on ASCII; bytes above 127 are left unchanged by them.
\<close>

datatype py_error =
  ValueError | IndexError | KeyError | TypeError | FileNotFoundError
  | RuntimeError | ValidationError

definition is_space :: "char \<Rightarrow> bool" where
  \<comment> \<open>\<open>str.isspace\<close> on ASCII: TAB, LF, VT, FF, CR, FS, GS, RS, US and the blank.\<close>
  "is_space c = (let n = (of_char c :: nat) in (9 \<le> n \<and> n \<le> 13) \<or> (28 \<le> n \<and> n \<le> 32))"

definition lstrip :: "string \<Rightarrow> string" where
  "lstrip s = dropWhile is_space s"

definition rstrip :: "string \<Rightarrow> string" where
  "rstrip s = rev (dropWhile is_space (rev s))"

definition strip :: "string \<Rightarrow> string" where
  "strip s = rstrip (lstrip s)"

definition digit_char :: "nat \<Rightarrow> char" where
  "digit_char d = char_of (48 + d)"

text \<open>\<open>str(n)\<close> of a non-negative integer: its decimal digits.\<close>

fun str_nat :: "nat \<Rightarrow> string" where
  "str_nat n = (if n < 10 then [digit_char n] else str_nat (n div 10) @ [digit_char (n mod 10)])"

declare str_nat.simps [simp del]

section \<open>Document indexer (src/rag/agent\_based/indexer.py)\<close>

record page =
  page_num :: nat
  page_text :: string

text \<open>
  \<open>_read_pdf_pages\<close>: the document is the list of the texts of its physical pages, in
  order. A page whose text is empty after \<open>strip\<close> is skipped; the others keep their
  1-based physical page number.
\<close>

definition read_pdf_pages :: "string list \<Rightarrow> page list" where
  "read_pdf_pages doc =
     map (\<lambda>(i, t). \<lparr>page_num = i + 1, page_text = strip t\<rparr>)
       (filter (\<lambda>(i, t). strip t \<noteq> []) (enumerate 0 doc))"

text \<open>\<open>range(i, stop, step)\<close> for a positive step, as the loop of \<open>_create_batches\<close> runs it.\<close>

function py_range :: "nat \<Rightarrow> nat \<Rightarrow> nat \<Rightarrow> nat list" where
  "py_range i stop step =
     (if step = 0 \<or> stop \<le> i then [] else i # py_range (i + step) stop step)"
  by pat_completeness auto
termination
  by (relation "measure (\<lambda>(i, stop, step). stop - i)") auto

declare py_range.simps [simp del]

text \<open>
  \<open>_create_batches\<close>: \<open>range\<close> raises ValueError for step 0 and is empty for a negative
  step; the slice \<open>pages[i:i + batch_size]\<close> is \<open>take\<close> after \<open>drop\<close>.
\<close>

definition create_batches :: "'a list \<Rightarrow> int \<Rightarrow> py_error + 'a list list" where
  "create_batches pages batch_size =
     (if batch_size = 0 then Inl ValueError
      else if batch_size < 0 then Inr []
      else Inr (map (\<lambda>i. take (nat batch_size) (drop i pages))
                  (py_range 0 (length pages) (nat batch_size))))"

record section_entry =
  section_id :: string
  sec_title :: string
  sec_pages :: "nat list"
  page_range :: string
  sec_summary :: string
  sec_keywords :: "string list"

record doc_index =
  document_id :: string
  title :: string
  category :: string
  source_file :: string
  total_pages :: nat
  summary :: string
  sections :: "section_entry list"

text \<open>
  What the indexer takes from outside the page logic: the Gateway's batch summary
  (\<open>_summarize_batch\<close>, after its fallback), the global summary, the keyword extractor
  and the metadata fields found in the content or inferred from the path.
\<close>

record indexer_env =
  summarize_batch :: "page list \<Rightarrow> string"
  summarize_document :: "section_entry list \<Rightarrow> string"
  extract_keywords :: "string \<Rightarrow> string list"
  meta_procedure_code :: string
  meta_title :: string
  meta_category :: string
  meta_source_file :: string

text \<open>The title literal \<open>Secci\'on\<close> in UTF-8.\<close>

definition seccion :: string where
  "seccion = [CHR ''S'', CHR ''e'', CHR ''c'', CHR ''c'', CHR ''i'', CHR 0xC3, CHR 0xB3, CHR ''n'', CHR '' '']"

text \<open>One pass of the loop over \<open>enumerate(batches, 1)\<close>; \<open>batch[0]\<close> raises on an empty batch.\<close>

definition make_section :: "indexer_env \<Rightarrow> nat \<Rightarrow> page list \<Rightarrow> py_error + section_entry" where
  "make_section env i batch =
     (case batch of
        [] \<Rightarrow> Inl IndexError
      | _ # _ \<Rightarrow>
          (let s = summarize_batch env batch in
           Inr \<lparr>section_id = str_nat i,
                sec_title = seccion @ str_nat i,
                sec_pages = map page_num batch,
                page_range = str_nat (page_num (hd batch)) @ ''-'' @ str_nat (page_num (last batch)),
                sec_summary = s,
                sec_keywords = extract_keywords env s\<rparr>))"

fun make_sections :: "indexer_env \<Rightarrow> nat \<Rightarrow> page list list \<Rightarrow> py_error + section_entry list" where
  "make_sections env i [] = Inr []"
| "make_sections env i (batch # rest) =
     (case make_section env i batch of
        Inl e \<Rightarrow> Inl e
      | Inr s \<Rightarrow> (case make_sections env (Suc i) rest of
                   Inl e \<Rightarrow> Inl e
                 | Inr ss \<Rightarrow> Inr (s # ss)))"

text \<open>
  \<open>index_document\<close>: \<open>None\<close> is a path that does not exist. The index is returned; writing
  it to disk is \<open>save_index\<close> below.
\<close>

definition index_document :: "indexer_env \<Rightarrow> string list option \<Rightarrow> int \<Rightarrow> py_error + doc_index" where
  "index_document env pdf batch_size =
     (case pdf of
        None \<Rightarrow> Inl FileNotFoundError
      | Some doc \<Rightarrow>
          (let pages = read_pdf_pages doc in
           if pages = [] then Inl ValueError
           else (case create_batches pages batch_size of
                   Inl e \<Rightarrow> Inl e
                 | Inr batches \<Rightarrow>
                     (case make_sections env 1 batches of
                        Inl e \<Rightarrow> Inl e
                      | Inr secs \<Rightarrow>
                          Inr \<lparr>document_id = meta_procedure_code env,
                               title = meta_title env,
                               category = meta_category env,
                               source_file = meta_source_file env,
                               total_pages = length pages,
                               summary = summarize_document env secs,
                               sections = secs\<rparr>))))"




definition const_env :: indexer_env where
  "const_env = \<lparr>summarize_batch = (\<lambda>b. ''resumen''),
                summarize_document = (\<lambda>ss. ''global''),
                extract_keywords = (\<lambda>s. []),
                meta_procedure_code = ''PROC-JUB-001'',
                meta_title = ''Jubilacion'',
                meta_category = ''jubilacion'',
                meta_source_file = ''proc-jub-001.pdf''\<rparr>"

section \<open>Index persistence (indexer.\_save\_index, retrieval.\_load\_all\_indices)\<close>

text \<open>
  A file of the indices directory: a JSON object with a \<open>document_id\<close> (what the indexer
  writes), a JSON object without one, or a file that \<open>json.load\<close> or the lookup rejects.
  The directory is the list of its files in the order \<open>glob\<close> yields them; \<open>None\<close> is a
  directory that does not exist.
\<close>

datatype index_file = IndexJson doc_index | JsonWithoutId | Unloadable

type_synonym directory = "(string \<times> index_file) list"

text \<open>\<open>_save_index\<close>: \<open>mkdir(parents=True, exist_ok=True)\<close>, then the file \<open>{document_id}.json\<close>
  is written (created, or overwritten in place).\<close>

definition save_index :: "doc_index \<Rightarrow> directory option \<Rightarrow> directory option" where
  "save_index index output_dir =
     (let files = (case output_dir of None \<Rightarrow> [] | Some fs \<Rightarrow> fs);
          filename = document_id index @ ''.json''
      in Some (AList.update filename (IndexJson index) files))"

text \<open>The pattern \<open>index-*.json\<close> of \<open>Path.glob\<close>.\<close>

definition glob_index :: "string \<Rightarrow> bool" where
  "glob_index name = (prefix ''index-'' name \<and> suffix ''.json'' name \<and> 11 \<le> length name)"

definition stem :: "string \<Rightarrow> string" where
  "stem name = take (length name - 5) name"

text \<open>\<open>_load_all_indices\<close>: the dict it builds is the list of its items in insertion order.\<close>

definition load_index_file ::
  "string \<times> index_file \<Rightarrow> (string \<times> index_file) list \<Rightarrow> (string \<times> index_file) list" where
  "load_index_file f indices =
     (case f of (name, data) \<Rightarrow>
        if glob_index name then
          (case data of
             IndexJson idx \<Rightarrow> AList.update (document_id idx) data indices
           | JsonWithoutId \<Rightarrow> AList.update (stem name) data indices
           | Unloadable \<Rightarrow> indices)
        else indices)"

definition load_all_indices :: "directory option \<Rightarrow> (string \<times> index_file) list" where
  "load_all_indices indices_dir =
     (case indices_dir of
        None \<Rightarrow> []
      | Some files \<Rightarrow> fold load_index_file files [])"

text \<open>The round trip in the words of the specification: what the indexer saved into a
  directory is loaded from that directory under its \<open>document_id\<close>.\<close>

definition spec_round_trip :: "doc_index \<Rightarrow> directory option \<Rightarrow> bool" where
  "spec_round_trip index dir =
     (map_of (load_all_indices (save_index index dir)) (document_id index) = Some (IndexJson index))"

definition sample_index :: doc_index where
  "sample_index = \<lparr>document_id = ''PROC-JUB-001'', title = ''Jubilacion'',
      category = ''jubilacion'', source_file = ''proc-jub-001.pdf'', total_pages = 1,
      summary = ''global'', sections = []\<rparr>"

section \<open>Reasoning loop (src/agents/buscador/agent.py)\<close>

text \<open>
  The structured values that tools take and return: JSON-like Python values. A dict is
  the list of its items in insertion order, with pairwise distinct keys. Floats are not
  modelled.
\<close>

datatype pyval =
  PNone | PBool bool | PInt int | PStr string | PList "pyval list"
  | PDict "(string \<times> pyval) list"

definition str_int :: "int \<Rightarrow> string" where
  "str_int i = (if i < 0 then ''-'' @ str_nat (nat (- i)) else str_nat (nat i))"

definition hex_digit :: "nat \<Rightarrow> char" where
  "hex_digit d = (if d < 10 then char_of (48 + d) else char_of (87 + d))"

text \<open>\<open>repr\<close> of a string on ASCII: the quote is \<open>"\<close> only when the string holds \<open>'\<close> and no
  \<open>"\<close>; backslash, the quote, LF, CR and TAB are escaped, other control characters are
  written \<open>\xNN\<close>.\<close>

definition repr_char :: "char \<Rightarrow> char \<Rightarrow> string" where
  "repr_char q c =
     (if c = CHR 0x5C then [CHR 0x5C, CHR 0x5C]
      else if c = q then [CHR 0x5C, q]
      else if c = CHR 0x0A then [CHR 0x5C, CHR ''n'']
      else if c = CHR 0x0D then [CHR 0x5C, CHR ''r'']
      else if c = CHR 0x09 then [CHR 0x5C, CHR ''t'']
      else if (of_char c :: nat) < 32 \<or> (of_char c :: nat) = 127
        then [CHR 0x5C, CHR ''x'', hex_digit ((of_char c :: nat) div 16), hex_digit ((of_char c :: nat) mod 16)]
      else [c])"

definition repr_str :: "string \<Rightarrow> string" where
  "repr_str s =
     (let q = (if CHR 0x27 \<in> set s \<and> CHR 0x22 \<notin> set s then CHR 0x22 else CHR 0x27)
      in [q] @ concat (map (repr_char q) s) @ [q])"

fun join :: "string \<Rightarrow> string list \<Rightarrow> string" where
  "join sep [] = []"
| "join sep [x] = x"
| "join sep (x # y # ys) = x @ sep @ join sep (y # ys)"

fun py_repr :: "pyval \<Rightarrow> string" where
  "py_repr PNone = ''None''"
| "py_repr (PBool b) = (if b then ''True'' else ''False'')"
| "py_repr (PInt i) = str_int i"
| "py_repr (PStr s) = repr_str s"
| "py_repr (PList xs) = ''['' @ join '', '' (map py_repr xs) @ '']''"
| "py_repr (PDict kvs) =
     ''{'' @ join '', '' (map (\<lambda>kv. repr_str (fst kv) @ '': '' @ py_repr (snd kv)) kvs) @ ''}''"

definition py_str :: "pyval \<Rightarrow> string" where
  "py_str v = (case v of PStr s \<Rightarrow> s | _ \<Rightarrow> py_repr v)"

text \<open>Truth value of a Python value, and \<open>dict.get\<close>.\<close>

definition truthy :: "pyval \<Rightarrow> bool" where
  "truthy v =
     (case v of PNone \<Rightarrow> False | PBool b \<Rightarrow> b | PInt i \<Rightarrow> i \<noteq> 0 | PStr s \<Rightarrow> s \<noteq> []
      | PList xs \<Rightarrow> xs \<noteq> [] | PDict kvs \<Rightarrow> kvs \<noteq> [])"

definition dict_get :: "(string \<times> pyval) list \<Rightarrow> string \<Rightarrow> pyval \<Rightarrow> pyval" where
  "dict_get kvs k dflt = (case map_of kvs k of None \<Rightarrow> dflt | Some v \<Rightarrow> v)"

record observation =
  step :: nat
  tool :: string
  obs_input :: pyval
  obs_output :: pyval

text \<open>What \<open>model_provider.generate\<close> gives back: an exception, free text, or the dict
  \<open>{tool_name, arguments, result}\<close> of an executed tool call.\<close>

datatype gw_result = GwRaise | GwText string | GwTool string pyval pyval

text \<open>
  The Gateway is outside the loop: within one \<open>run\<close> it is asked at most once per
  iteration for a plan and once for an action, so its behaviour is a function of the
  iteration. \<open>summary_from_observations\<close> stands for \<open>_build_summary_from_observations\<close>.
\<close>

record gateway =
  planner :: "nat \<Rightarrow> gw_result"
  act :: "nat \<Rightarrow> gw_result"
  summary_from_observations :: "string \<Rightarrow> observation list \<Rightarrow> py_error + string"

definition MAX_ITERATIONS :: nat where
  "MAX_ITERATIONS = 10"

definition MAX_LOOP_REPEATS :: nat where
  "MAX_LOOP_REPEATS = 3"

record agent_response =
  content :: string
  plan :: "string option"
  observations :: "observation list"
  iterations :: nat
  finished_by :: "string option"
  error :: "string option"
  sources :: "pyval option"
  confidence :: "pyval option"
  completed :: "bool option"

text \<open>\<open>_should_replan\<close>: the last output has a truthy \<open>error\<close>, or a \<open>count\<close> equal to 0
  (\<open>False == 0\<close> holds in Python).\<close>

definition should_replan :: "observation list \<Rightarrow> bool" where
  "should_replan obs =
     (if obs = [] then False
      else (case obs_output (last obs) of
              PDict kvs \<Rightarrow>
                if truthy (dict_get kvs ''error'' PNone) then True
                else (let c = dict_get kvs ''count'' (PInt (- 1))
                      in c = PInt 0 \<or> c = PBool False)
            | _ \<Rightarrow> False))"

definition default_plan :: string where
  "default_plan = ''1. Buscar informaci'' @ [CHR 0xC3, CHR 0xB3] @ ''n relevante''
      @ [CHR 0x0A] @ ''2. Consolidar resultados''"

text \<open>\<open>_generate_plan\<close>, and the PLAN step of one iteration.\<close>

definition generate_plan :: "gateway \<Rightarrow> nat \<Rightarrow> py_error + string" where
  "generate_plan gw iteration =
     (case planner gw iteration of
        GwRaise \<Rightarrow> Inl RuntimeError
      | GwText p \<Rightarrow> Inr p
      | GwTool t a r \<Rightarrow> Inr default_plan)"

definition plan_step ::
  "gateway \<Rightarrow> nat \<Rightarrow> observation list \<Rightarrow> string option \<Rightarrow> py_error + string option" where
  "plan_step gw iteration obs current_plan =
     (if current_plan = None \<or> should_replan obs
      then (case generate_plan gw iteration of Inl e \<Rightarrow> Inl e | Inr p \<Rightarrow> Inr (Some p))
      else Inr current_plan)"

text \<open>The signature of \<open>_detect_loop\<close>: \<open>f"{tool}:{sorted(args.items())}"\<close> for a dict of
  arguments, \<open>f"{tool}:{args}"\<close> otherwise. The keys of a dict are distinct, so the sort
  of the items is the sort by key.\<close>

definition repr_item :: "string \<times> pyval \<Rightarrow> string" where
  "repr_item kv = ''('' @ repr_str (fst kv) @ '', '' @ py_repr (snd kv) @ '')''"

definition signature :: "observation \<Rightarrow> string" where
  "signature obs =
     (case obs_input obs of
        PDict args \<Rightarrow> tool obs @ '':'' @ ''['' @ join '', '' (map repr_item (sort_key fst args)) @ '']''
      | args \<Rightarrow> tool obs @ '':'' @ py_str args)"

definition detect_loop :: "observation list \<Rightarrow> nat \<Rightarrow> py_error + bool" where
  "detect_loop obs max_repeats =
     (if length obs < max_repeats then Inr False
      else (case obs of
              [] \<Rightarrow> Inl IndexError
            | _ # _ \<Rightarrow>
                (let signatures = map signature obs;
                     last_sig = last signatures;
                     repeat_count = count_list signatures last_sig
                 in Inr (max_repeats \<le> repeat_count))))"

text \<open>\<open>_build_partial_summary\<close>. The comparison \<open>count > 0\<close> raises TypeError for a count
  that is not a number.\<close>

definition busqueda_parcial :: string where
  "busqueda_parcial = ''B'' @ [CHR 0xC3, CHR 0xBA] @ ''squeda parcial para: ''"

definition partial_line :: "observation \<Rightarrow> py_error + string list" where
  "partial_line obs =
     (case obs_output obs of
        PDict kvs \<Rightarrow>
          if truthy (dict_get kvs ''error'' PNone) then Inr []
          else (case dict_get kvs ''count'' (PInt 0) of
                  PInt n \<Rightarrow> Inr (if 0 < n then [''- '' @ tool obs @ '': '' @ str_int n @ '' resultados''] else [])
                | PBool b \<Rightarrow> Inr (if b then [''- '' @ tool obs @ '': True resultados''] else [])
                | _ \<Rightarrow> Inl TypeError)
      | _ \<Rightarrow> Inr [])"

fun partial_lines :: "observation list \<Rightarrow> py_error + string list" where
  "partial_lines [] = Inr []"
| "partial_lines (obs # rest) =
     (case partial_line obs of
        Inl e \<Rightarrow> Inl e
      | Inr l \<Rightarrow> (case partial_lines rest of Inl e \<Rightarrow> Inl e | Inr ls \<Rightarrow> Inr (l @ ls)))"

definition build_partial_summary :: "string \<Rightarrow> observation list \<Rightarrow> py_error + string" where
  "build_partial_summary query obs =
     (case partial_lines obs of
        Inl e \<Rightarrow> Inl e
      | Inr results \<Rightarrow>
          Inr (busqueda_parcial @ query @ [CHR 0x0A, CHR 0x0A] @
               (if results \<noteq> [] then ''Resultados encontrados:'' @ [CHR 0x0A] @ join [CHR 0x0A] results
                else ''No se encontraron resultados relevantes.'')))"

definition limite_suffix :: "nat \<Rightarrow> string" where
  "limite_suffix max_iterations =
     [CHR 0x0A, CHR 0x0A] @ ''(B'' @ [CHR 0xC3, CHR 0xBA] @ ''squeda terminada por l''
       @ [CHR 0xC3, CHR 0xAD] @ ''mite de '' @ str_nat max_iterations @ '' iteraciones)''"

definition fallback_response ::
  "nat \<Rightarrow> string \<Rightarrow> observation list \<Rightarrow> string option \<Rightarrow> py_error + agent_response" where
  "fallback_response max_iterations query obs current_plan =
     (case build_partial_summary query obs of
        Inl e \<Rightarrow> Inl e
      | Inr s \<Rightarrow>
          Inr \<lparr>content = s @ limite_suffix max_iterations, plan = current_plan,
               observations = obs, iterations = max_iterations, finished_by = None,
               error = Some ''max_iterations_reached'', sources = None, confidence = None,
               completed = Some False\<rparr>)"

definition loop_response ::
  "string \<Rightarrow> observation list \<Rightarrow> string option \<Rightarrow> nat \<Rightarrow> py_error + agent_response" where
  "loop_response query obs current_plan iteration =
     (case build_partial_summary query obs of
        Inl e \<Rightarrow> Inl e
      | Inr s \<Rightarrow>
          Inr \<lparr>content = s, plan = current_plan, observations = obs,
               iterations = iteration + 1, finished_by = None,
               error = Some ''loop_detected'', sources = None, confidence = None,
               completed = None\<rparr>)"

text \<open>The return of the finish branch. \<open>result["result"]["summary"]\<close> raises TypeError when
  the result is not a dict and KeyError without the key; \<open>AgentResponse\<close> declares
  \<open>content: str\<close> and refuses another value.\<close>

definition finish_response ::
  "pyval \<Rightarrow> observation list \<Rightarrow> string option \<Rightarrow> nat \<Rightarrow> py_error + agent_response" where
  "finish_response result obs current_plan iteration =
     (case result of
        PDict kvs \<Rightarrow>
          (case map_of kvs ''summary'' of
             None \<Rightarrow> Inl KeyError
           | Some (PStr s) \<Rightarrow>
               Inr \<lparr>content = s, plan = current_plan, observations = obs,
                    iterations = iteration + 1, finished_by = None, error = None,
                    sources = Some (dict_get kvs ''sources'' (PList [])),
                    confidence = Some (dict_get kvs ''confidence'' (PStr ''medium'')),
                    completed = None\<rparr>
           | Some _ \<Rightarrow> Inl ValidationError)
      | _ \<Rightarrow> Inl TypeError)"

definition text_response ::
  "string \<Rightarrow> observation list \<Rightarrow> string option \<Rightarrow> nat \<Rightarrow> string \<Rightarrow> agent_response" where
  "text_response s obs current_plan iteration how =
     \<lparr>content = s, plan = current_plan, observations = obs, iterations = iteration + 1,
      finished_by = Some how, error = None, sources = None, confidence = None,
      completed = None\<rparr>"

text \<open>
  The loop \<open>for iteration in range(self.max_iterations)\<close>, by recursion on the iterations
  still to run; after the last one comes \<open>_fallback_response\<close>.
\<close>

fun run_loop ::
  "gateway \<Rightarrow> nat \<Rightarrow> string \<Rightarrow> nat list \<Rightarrow> observation list \<Rightarrow> string option
     \<Rightarrow> py_error + agent_response" where
  "run_loop gw max_iterations query [] obs current_plan =
     fallback_response max_iterations query obs current_plan"
| "run_loop gw max_iterations query (iteration # rest) obs current_plan =
     (case plan_step gw iteration obs current_plan of
        Inl e \<Rightarrow> Inl e
      | Inr current_plan \<Rightarrow>
          (case act gw iteration of
             GwRaise \<Rightarrow> Inl RuntimeError
           | GwText result \<Rightarrow>
               if obs \<noteq> [] \<and> strip result \<noteq> []
                 then Inr (text_response result obs current_plan iteration ''text_response'')
               else if obs \<noteq> []
                 then (case summary_from_observations gw query obs of
                         Inl e \<Rightarrow> Inl e
                       | Inr s \<Rightarrow> Inr (text_response s obs current_plan iteration ''auto_summary''))
               else run_loop gw max_iterations query rest obs current_plan
           | GwTool tool_name arguments result \<Rightarrow>
               (let obs = obs @ [\<lparr>step = iteration + 1, tool = tool_name,
                                   obs_input = arguments, obs_output = result\<rparr>]
                in (case detect_loop obs MAX_LOOP_REPEATS of
                      Inl e \<Rightarrow> Inl e
                    | Inr True \<Rightarrow> loop_response query obs current_plan iteration
                    | Inr False \<Rightarrow>
                        if tool_name = ''finish''
                          then finish_response result obs current_plan iteration
                        else run_loop gw max_iterations query rest obs current_plan))))"

definition run :: "gateway \<Rightarrow> nat \<Rightarrow> string \<Rightarrow> py_error + agent_response" where
  "run gw max_iterations query = run_loop gw max_iterations query [0 ..< max_iterations] [] None"

text \<open>The invariant on steps in the words of the specification: strictly increasing,
  starting at 1.\<close>

definition spec_steps :: "observation list \<Rightarrow> bool" where
  "spec_steps obs = (sorted_wrt (<) (map step obs) \<and> (obs \<noteq> [] \<longrightarrow> step (hd obs) = 1))"

definition spec_steps_result :: "py_error + agent_response \<Rightarrow> bool" where
  "spec_steps_result r = (case r of Inl e \<Rightarrow> True | Inr resp \<Rightarrow> spec_steps (observations resp))"

text \<open>A tool output whose \<open>count\<close>, when present, is a number, as the tools' results are.\<close>

definition count_typed :: "pyval \<Rightarrow> bool" where
  "count_typed out =
     (case out of
        PDict kvs \<Rightarrow>
          (case map_of kvs ''count'' of
             None \<Rightarrow> True | Some (PInt n) \<Rightarrow> True | Some (PBool b) \<Rightarrow> True | Some _ \<Rightarrow> False)
      | _ \<Rightarrow> True)"

text \<open>Sample gateways and observations for the closed theorems.\<close>

definition sql_call :: gw_result where
  "sql_call = GwTool ''sql_query'' (PDict [(''query'', PStr ''SELECT 1 FROM afiliados'')])
                (PDict [(''query'', PStr ''SELECT 1 FROM afiliados LIMIT 100''),
                        (''results'', PList []), (''count'', PInt 0)])"

definition gw_repeat :: gateway where
  "gw_repeat = \<lparr>planner = (\<lambda>i. GwText ''1. consultar''), act = (\<lambda>i. sql_call),
                summary_from_observations = (\<lambda>q obs. Inr ''resumen'')\<rparr>"

definition sql_obs :: "nat \<Rightarrow> observation" where
  "sql_obs n = \<lparr>step = n, tool = ''sql_query'',
      obs_input = PDict [(''query'', PStr ''SELECT 1 FROM afiliados'')],
      obs_output = PDict [(''query'', PStr ''SELECT 1 FROM afiliados LIMIT 100''),
                        (''results'', PList []), (''count'', PInt 0)]\<rparr>"

definition finish_call :: gw_result where
  "finish_call = GwTool ''finish'' (PDict [(''summary'', PStr ''listo'')])
                   (PDict [(''summary'', PStr ''listo''), (''sources'', PList []),
                           (''confidence'', PStr ''medium''), (''finished'', PBool True)])"

definition gw_finish :: gateway where
  "gw_finish = \<lparr>planner = (\<lambda>i. GwText ''1. consultar''),
                act = (\<lambda>i. if i = 0 then sql_call else finish_call),
                summary_from_observations = (\<lambda>q obs. Inr ''resumen'')\<rparr>"

definition gw_text_first :: gateway where
  "gw_text_first = \<lparr>planner = (\<lambda>i. GwText ''1. consultar''),
                act = (\<lambda>i. if i = 0 then GwText ''hola'' else finish_call),
                summary_from_observations = (\<lambda>q obs. Inr ''resumen'')\<rparr>"


section \<open>Retrieval (src/rag/agent\_based/chunk\_evaluator.py, retrieval.py)\<close>

text \<open>
  What \<open>json.loads\<close> returns. A number is modelled by its rational value; NaN and the
  infinities, which \<open>json.loads\<close> also accepts, are not modelled.
\<close>

datatype jv =
  JNull | JBool bool | JNum rat | JStr string | JArr "jv list" | JObj "(string \<times> jv) list"























subsection \<open>Index-guided retrieval\<close>


















section \<open>Structured-query tool (src/tools/sql\_query\_tool.py, src/agents/buscador/config.py)\<close>
































section \<open>Proofs: document indexer\<close>

lemma py_range_concat:
  "0 < n \<Longrightarrow> concat (map (\<lambda>i. take n (drop i xs)) (py_range i (length xs) n)) = drop i xs"
proof (induction i "length xs" n rule: py_range.induct)
  case (1 i step)
  show ?case
  proof (cases "length xs \<le> i")
    case True
    then show ?thesis by (simp add: py_range.simps)
  next
    case False
    with 1 have "concat (map (\<lambda>i. take step (drop i xs)) (py_range (i + step) (length xs) step)) = drop (i + step) xs"
      by simp
    moreover have "take step (drop i xs) @ drop (i + step) xs = drop i xs"
      by (metis add.commute append_take_drop_id drop_drop)
    ultimately show ?thesis using False 1(2)
      by (subst py_range.simps) simp
  qed
qed

lemma py_range_bound: "j \<in> set (py_range i stop n) \<Longrightarrow> j < stop"
proof (induction i stop n rule: py_range.induct)
  case (1 i stop step)
  then show ?case
    by (subst (asm) (2) py_range.simps) (auto split: if_splits)
qed

lemma py_range_nonempty: "0 < n \<Longrightarrow> i < stop \<Longrightarrow> py_range i stop n \<noteq> []"
  by (subst py_range.simps) simp

lemma py_range_butlast_full:
  "0 < n \<Longrightarrow> b \<in> set (butlast (map (\<lambda>i. take n (drop i xs)) (py_range i (length xs) n)))
     \<Longrightarrow> length b = n"
proof (induction i "length xs" n rule: py_range.induct)
  case (1 i step)
  show ?case
  proof (cases "length xs \<le> i")
    case True
    with 1(3) show ?thesis by (simp add: py_range.simps)
  next
    case False
    let ?rest = "py_range (i + step) (length xs) step"
    have unf: "py_range i (length xs) step = i # ?rest"
      using False 1(2) by (subst py_range.simps) simp
    show ?thesis
    proof (cases "?rest = []")
      case True
      with 1(3) unf show ?thesis by simp
    next
      case ne: False
      then have "i + step < length xs"
        by (subst (asm) py_range.simps) (auto split: if_splits)
      then have full: "length (take step (drop i xs)) = step" by simp
      from 1(3) unf ne have "b = take step (drop i xs) \<or>
          b \<in> set (butlast (map (\<lambda>i. take step (drop i xs)) ?rest))"
        by auto
      then show ?thesis using full 1(1)[OF _ 1(2)] False 1(2) by auto
    qed
  qed
qed















text \<open>
  Claim C9. For a non-empty list of pages and a batch size of at least 1,
  \<open>_create_batches\<close> returns consecutive batches whose concatenation is the list; every
  batch but the last has exactly \<open>batch_size\<close> pages and the last has between 1 and
  \<open>batch_size\<close> pages.
\<close>

theorem create_batches_partition:
  assumes "pages \<noteq> []" and "1 \<le> batch_size"
  shows "\<exists>batches. create_batches pages batch_size = Inr batches
           \<and> concat batches = pages
           \<and> batches \<noteq> []
           \<and> (\<forall>b \<in> set (butlast batches). length b = nat batch_size)
           \<and> 1 \<le> length (last batches) \<and> length (last batches) \<le> nat batch_size"
proof -
  let ?n = "nat batch_size"
  let ?bs = "map (\<lambda>i. take ?n (drop i pages)) (py_range 0 (length pages) ?n)"
  have n: "0 < ?n" using assms(2) by simp
  have eq: "create_batches pages batch_size = Inr ?bs"
    using assms(2) by (simp add: create_batches_def)
  have c: "concat ?bs = pages" using py_range_concat[OF n, of pages 0] by simp
  have ne: "?bs \<noteq> []" using py_range_nonempty[OF n, of 0 "length pages"] assms(1) by simp
  have full: "\<forall>b \<in> set (butlast ?bs). length b = ?n"
    using py_range_butlast_full[OF n] by blast
  from ne have "last ?bs \<in> set ?bs" by (rule last_in_set)
  then obtain j where j: "j \<in> set (py_range 0 (length pages) ?n)" "last ?bs = take ?n (drop j pages)"
    by auto
  from py_range_bound[OF j(1)] have "j < length pages" .
  have jlt: "j < length pages" using py_range_bound[OF j(1)] .
  have len: "length (last ?bs) = min ?n (length pages - j)" using j(2) by simp
  have "1 \<le> min ?n (length pages - j) \<and> min ?n (length pages - j) \<le> ?n"
    using n jlt by auto
  then have "1 \<le> length (last ?bs) \<and> length (last ?bs) \<le> ?n"
    by (simp only: len)
  with eq c ne full show ?thesis by blast
qed

theorem create_batches_partition_witness:
  "[1, 2, 3, 4, 5, 6, 7 :: nat] \<noteq> [] \<and> (1::int) \<le> 3
   \<and> create_batches [1, 2, 3, 4, 5, 6, 7 :: nat] 3 = Inr [[1, 2, 3], [4, 5, 6], [7]]"
proof -
  have e: "create_batches [1, 2, 3, 4, 5, 6, 7 :: nat] 3 = Inr [[1, 2, 3], [4, 5, 6], [7]]"
    by code_simp
  from create_batches_partition[of "[1, 2, 3, 4, 5, 6, 7 :: nat]" 3] e show ?thesis by simp
qed

section \<open>Proofs: index persistence\<close>

lemma load_index_file_skips: "\<not> glob_index (fst f) \<Longrightarrow> load_index_file f indices = indices"
  by (cases f) (simp add: load_index_file_def)

lemma fold_load_skips:
  "\<forall>f \<in> set files. \<not> glob_index (fst f) \<Longrightarrow> fold load_index_file files indices = indices"
  by (induction files arbitrary: indices) (simp_all add: load_index_file_skips)

lemma saved_name_not_globbed:
  assumes "\<not> prefix ''index-'' (document_id index)"
  shows "\<not> glob_index (document_id index @ ''.json'')"
proof
  assume "glob_index (document_id index @ ''.json'')"
  then have p: "prefix ''index-'' (document_id index @ ''.json'')"
    and l: "11 \<le> length (document_id index @ ''.json'')"
    by (simp_all add: glob_index_def)
  from l have "length ''index-'' \<le> length (document_id index)" by simp
  with p have "prefix ''index-'' (document_id index)"
    by (metis prefix_length_prefix prefixI)
  with assms show False by contradiction
qed

lemma save_into_fresh_directory_loads_nothing:
  assumes "\<not> prefix ''index-'' (document_id index)"
  shows "load_all_indices (save_index index None) = []"
  using saved_name_not_globbed[OF assms]
  by (simp add: load_all_indices_def save_index_def load_index_file_def)

text \<open>
  Claim C3 fails on the code. The indexer writes \<open>PROC-JUB-001.json\<close>; the retrieval
  engine reads only the files that match \<open>index-*.json\<close>, so the index just saved is not
  among the indices it loads.
\<close>

theorem saved_index_is_not_loaded:
  "save_index sample_index (Some []) = Some [(''PROC-JUB-001.json'', IndexJson sample_index)]
   \<and> load_all_indices (save_index sample_index (Some [])) = []
   \<and> \<not> spec_round_trip sample_index (Some [])
   \<and> map_sum id (\<lambda>idx. (document_id idx, load_all_indices (save_index idx (Some []))))
         (index_document const_env (Some [''uno'']) 5) = Inr (''PROC-JUB-001'', [])"
  by code_simp

section \<open>Proofs: reasoning loop\<close>

lemma detect_loop_nonempty:
  assumes "obs \<noteq> []"
  shows "detect_loop obs m = Inr (m \<le> count_list (map signature obs) (signature (last obs)))"
proof -
  have l: "last (map signature obs) = signature (last obs)" using assms by (rule last_map)
  have c: "count_list (map signature obs) (signature (last obs)) \<le> length obs"
    using count_le_length[of "map signature obs"] by simp
  obtain x xs where "obs = x # xs" using assms by (cases obs) auto
  then show ?thesis using l c
    by (auto simp: detect_loop_def Let_def simp del: last.simps count_list.simps)
qed

lemma partial_line_typed: "count_typed (obs_output o1) \<Longrightarrow> \<exists>l. partial_line o1 = Inr l"
  by (auto simp: count_typed_def partial_line_def dict_get_def split: pyval.splits option.splits)

lemma partial_lines_typed:
  "\<forall>o1 \<in> set obs. count_typed (obs_output o1) \<Longrightarrow> \<exists>ls. partial_lines obs = Inr ls"
proof (induction obs)
  case Nil
  then show ?case by simp
next
  case (Cons a obs)
  then obtain ls where "partial_lines obs = Inr ls" by auto
  moreover from Cons.prems obtain l where "partial_line a = Inr l"
    using partial_line_typed[of a] by auto
  ultimately show ?case by simp
qed

lemma build_partial_summary_typed:
  "\<forall>o1 \<in> set obs. count_typed (obs_output o1) \<Longrightarrow> \<exists>s. build_partial_summary q obs = Inr s"
  using partial_lines_typed[of obs] by (auto simp: build_partial_summary_def)

text \<open>
  Claim C1. At any iteration of the loop, whatever the history and whatever budget is
  left: when the action the Gateway returns is recorded and its signature then occurs at
  least \<open>MAX_LOOP_REPEATS\<close> (3) times among the observations, \<open>run\<close> returns at once, with
  the partial summary of the observations as content and the tag \<open>loop_detected\<close>. The
  outputs are taken to carry numeric counts, as the tools' results do.
\<close>

theorem loop_detection_terminates:
  assumes "plan_step gw iteration obs current_plan = Inr new_plan"
    and "act gw iteration = GwTool tool_name arguments result"
    and "obs' = obs @ [\<lparr>step = iteration + 1, tool = tool_name,
                         obs_input = arguments, obs_output = result\<rparr>]"
    and "MAX_LOOP_REPEATS \<le> count_list (map signature obs') (signature (last obs'))"
    and "\<forall>o1 \<in> set obs'. count_typed (obs_output o1)"
  shows "\<exists>s. build_partial_summary query obs' = Inr s
           \<and> run_loop gw max_iterations query (iteration # rest) obs current_plan
               = Inr \<lparr>content = s, plan = new_plan, observations = obs',
                      iterations = iteration + 1, finished_by = None,
                      error = Some ''loop_detected'', sources = None, confidence = None,
                      completed = None\<rparr>"
proof -
  from assms(5) obtain s where s: "build_partial_summary query obs' = Inr s"
    using build_partial_summary_typed by blast
  have ne: "obs' \<noteq> []" using assms(3) by simp
  have d: "detect_loop obs' MAX_LOOP_REPEATS = Inr True"
    using detect_loop_nonempty[OF ne] assms(4) by simp
  have "run_loop gw max_iterations query (iteration # rest) obs current_plan
          = loop_response query obs' new_plan iteration"
    using assms(1,2) d unfolding assms(3) by (simp add: Let_def)
  with s show ?thesis by (simp add: loop_response_def)
qed







lemma finish_response_Inr:
  assumes "finish_response result obs' p i = Inr resp"
  shows "observations resp = obs' \<and> error resp = None \<and> finished_by resp = None
         \<and> (\<exists>kvs. result = PDict kvs \<and> map_of kvs ''summary'' = Some (PStr (content resp)))"
  using assms
  by (auto simp: finish_response_def split: pyval.splits option.splits)

lemma loop_response_Inr:
  "loop_response q obs' p i = Inr resp \<Longrightarrow> observations resp = obs' \<and> iterations resp = i + 1"
  by (auto simp: loop_response_def split: sum.splits)

lemma fallback_response_Inr:
  "fallback_response m q obs' p = Inr resp \<Longrightarrow> observations resp = obs' \<and> iterations resp = m"
  by (auto simp: fallback_response_def split: sum.splits)






lemma run_loop_steps:
  "run_loop gw m q its obs p = Inr resp \<Longrightarrow> sorted_wrt (<) its \<Longrightarrow>
   sorted_wrt (<) (map step obs) \<Longrightarrow> \<forall>o1 \<in> set obs. \<forall>i \<in> set its. step o1 \<le> i \<Longrightarrow>
   \<exists>new. observations resp = obs @ new \<and> sorted_wrt (<) (map step (obs @ new))
        \<and> (\<forall>o1 \<in> set new. \<exists>i \<in> set its. step o1 = i + 1)"
proof (induction its arbitrary: obs p)
  case Nil
  then have "observations resp = obs" by (auto dest: fallback_response_Inr)
  with Nil show ?case by auto
next
  case (Cons i rest)
  from Cons.prems(1) obtain p' where ps: "plan_step gw i obs p = Inr p'"
    by (cases "plan_step gw i obs p") auto
  have srest: "sorted_wrt (<) rest" and ilt: "\<forall>j \<in> set rest. i < j"
    using Cons.prems(2) by auto
  show ?case
  proof (cases "act gw i")
    case GwRaise
    with Cons.prems(1) ps show ?thesis by simp
  next
    case (GwText s)
    show ?thesis
    proof (cases "obs = []")
      case True
      with Cons.prems(1) ps GwText have r: "run_loop gw m q rest obs p' = Inr resp" by simp
      have "\<forall>o1 \<in> set obs. \<forall>i \<in> set rest. step o1 \<le> i" using Cons.prems(4) by auto
      from Cons.IH[OF r srest Cons.prems(3) this] show ?thesis by auto
    next
      case False
      with Cons.prems(1) ps GwText have "observations resp = obs"
        by (auto simp: text_response_def split: if_splits sum.splits)
      with Cons.prems(3) show ?thesis by auto
    qed
  next
    case (GwTool t a r)
    let ?new = "\<lparr>step = i + 1, tool = t, obs_input = a, obs_output = r\<rparr>"
    have lt: "\<forall>o1 \<in> set obs. step o1 < i + 1" using Cons.prems(4) by auto
    have s': "sorted_wrt (<) (map step (obs @ [?new]))"
      using Cons.prems(3) lt by (simp add: sorted_wrt_append)
    have d: "detect_loop (obs @ [?new]) MAX_LOOP_REPEATS
               = Inr (MAX_LOOP_REPEATS \<le> count_list (map signature (obs @ [?new])) (signature (last (obs @ [?new]))))"
      by (rule detect_loop_nonempty) simp
    consider (stop) "observations resp = obs @ [?new]"
      | (go) "run_loop gw m q rest (obs @ [?new]) p' = Inr resp"
    proof (cases "MAX_LOOP_REPEATS \<le> count_list (map signature (obs @ [?new])) (signature (last (obs @ [?new])))")
      case True
      with d Cons.prems(1) ps GwTool
      have "loop_response q (obs @ [?new]) p' i = Inr resp" by (simp add: Let_def)
      then have "observations resp = obs @ [?new]" by (auto dest: loop_response_Inr)
      then show ?thesis by (rule stop)
    next
      case F: False
      show ?thesis
      proof (cases "t = ''finish''")
        case True
        with F d Cons.prems(1) ps GwTool
        have "finish_response r (obs @ [?new]) p' i = Inr resp" by (simp add: Let_def)
        from finish_response_Inr[OF this] have "observations resp = obs @ [?new]" by simp
        then show ?thesis by (rule stop)
      next
        case False
        with F d Cons.prems(1) ps GwTool
        have "run_loop gw m q rest (obs @ [?new]) p' = Inr resp" by (simp add: Let_def)
        then show ?thesis by (rule go)
      qed
    qed
    then show ?thesis
    proof cases
      case stop
      with s' show ?thesis by auto
    next
      case go
      have b: "\<forall>o1 \<in> set (obs @ [?new]). \<forall>j \<in> set rest. step o1 \<le> j"
        using Cons.prems(4) ilt by auto
      from Cons.IH[OF go srest s' b] obtain new where
        n: "observations resp = (obs @ [?new]) @ new"
           "sorted_wrt (<) (map step ((obs @ [?new]) @ new))"
           "\<forall>o1 \<in> set new. \<exists>i \<in> set rest. step o1 = i + 1" by blast
      have "observations resp = obs @ (?new # new)" using n(1) by simp
      moreover have "sorted_wrt (<) (map step (obs @ (?new # new)))" using n(2) by simp
      moreover have "\<forall>o1 \<in> set (?new # new). \<exists>j \<in> set (i # rest). step o1 = j + 1"
        using n(3) by auto
      ultimately show ?thesis by blast
    qed
  qed
qed

text \<open>
  Claim C8, as the code has it. The step of an observation is the 1-based number of the
  iteration that recorded it: in the response of a run the steps are strictly
  increasing and lie between 1 and \<open>max_iterations\<close>; and from any point of the loop on,
  the observations held at that point stay a prefix of the final ones (nothing is
  removed or changed), each later one carrying the number of a later iteration.
\<close>

theorem observations_append_only_steps_increasing:
  "(run gw m q = Inr resp
      \<longrightarrow> sorted_wrt (<) (map step (observations resp))
          \<and> (\<forall>o1 \<in> set (observations resp). 1 \<le> step o1 \<and> step o1 \<le> m))
   \<and> (run_loop gw m q its obs p = Inr resp \<and> sorted_wrt (<) its
         \<and> sorted_wrt (<) (map step obs) \<and> (\<forall>o1 \<in> set obs. \<forall>i \<in> set its. step o1 \<le> i)
      \<longrightarrow> prefix obs (observations resp)
          \<and> sorted_wrt (<) (map step (observations resp))
          \<and> (\<forall>o1 \<in> set (drop (length obs) (observations resp)).
                \<exists>i \<in> set its. step o1 = i + 1))"
proof (rule conjI; rule impI)
  assume "run gw m q = Inr resp"
  then have r: "run_loop gw m q [0 ..< m] [] None = Inr resp" by (simp add: run_def)
  have "sorted_wrt (<) [0 ..< m]" by (simp add: sorted_wrt_upt)
  from run_loop_steps[OF r this] obtain new where
    n: "observations resp = new" "sorted_wrt (<) (map step new)"
       "\<forall>o1 \<in> set new. \<exists>i \<in> set [0 ..< m]. step o1 = i + 1" by auto
  from n(3) have "\<forall>o1 \<in> set new. 1 \<le> step o1 \<and> step o1 \<le> m" by auto
  with n(1,2) show "sorted_wrt (<) (map step (observations resp))
          \<and> (\<forall>o1 \<in> set (observations resp). 1 \<le> step o1 \<and> step o1 \<le> m)" by simp
next
  assume a: "run_loop gw m q its obs p = Inr resp \<and> sorted_wrt (<) its
         \<and> sorted_wrt (<) (map step obs) \<and> (\<forall>o1 \<in> set obs. \<forall>i \<in> set its. step o1 \<le> i)"
  then obtain new where
    n: "observations resp = obs @ new" "sorted_wrt (<) (map step (obs @ new))"
       "\<forall>o1 \<in> set new. \<exists>i \<in> set its. step o1 = i + 1"
    using run_loop_steps[of gw m q its obs p resp] by blast
  then show "prefix obs (observations resp)
          \<and> sorted_wrt (<) (map step (observations resp))
          \<and> (\<forall>o1 \<in> set (drop (length obs) (observations resp)).
                \<exists>i \<in> set its. step o1 = i + 1)" by simp
qed

theorem observations_append_only_steps_increasing_witness:
  "run gw_finish 10 ''q'' = run_loop gw_finish 10 ''q'' [1, 2, 3] [sql_obs 1] (Some ''1. consultar'')
   \<and> sorted_wrt (<) [1, 2, 3 :: nat] \<and> sorted_wrt (<) (map step [sql_obs 1])
   \<and> list_all (\<lambda>o1. list_all (\<lambda>i. step o1 \<le> i) [1, 2, 3 :: nat]) [sql_obs 1]
   \<and> map_sum id (\<lambda>r. map step (observations r)) (run gw_finish 10 ''q'') = Inr [1, 2]
   \<and> (\<exists>resp. run gw_finish 10 ''q'' = Inr resp
         \<and> sorted_wrt (<) (map step (observations resp)) \<and> prefix [sql_obs 1] (observations resp))"
proof -
  have e: "run gw_finish 10 ''q'' = run_loop gw_finish 10 ''q'' [1, 2, 3] [sql_obs 1] (Some ''1. consultar'')"
    by code_simp
  have h1: "sorted_wrt (<) [1, 2, 3 :: nat]" by simp
  have h2: "sorted_wrt (<) (map step [sql_obs 1])" by simp
  have h3: "\<forall>o1 \<in> set [sql_obs 1]. \<forall>i \<in> set [1, 2, 3 :: nat]. step o1 \<le> i"
    by (simp add: sql_obs_def)
  have v: "map_sum id (\<lambda>r. map step (observations r)) (run gw_finish 10 ''q'') = Inr [1, 2]"
    by code_simp
  have h3l: "list_all (\<lambda>o1. list_all (\<lambda>i. step o1 \<le> i) [1, 2, 3 :: nat]) [sql_obs 1]"
    by (simp add: sql_obs_def)
  from v obtain resp where r: "run gw_finish 10 ''q'' = Inr resp"
    by (cases "run gw_finish 10 ''q''") auto
  with e have "run_loop gw_finish 10 ''q'' [1, 2, 3] [sql_obs 1] (Some ''1. consultar'') = Inr resp"
    by simp
  with observations_append_only_steps_increasing[of gw_finish 10 "''q''" resp "[1, 2, 3]"
      "[sql_obs 1]" "Some ''1. consultar''"] h1 h2 h3 r
  have "sorted_wrt (<) (map step (observations resp)) \<and> prefix [sql_obs 1] (observations resp)"
    by blast
  with r have "\<exists>resp. run gw_finish 10 ''q'' = Inr resp
         \<and> sorted_wrt (<) (map step (observations resp)) \<and> prefix [sql_obs 1] (observations resp)"
    by blast
  with e h1 h2 h3l v show ?thesis by blast
qed

text \<open>
  Claim C8 as stated fails on the start: when the Gateway first answers with free text
  and there is no history yet, the iteration is spent without an observation, and the
  first observation recorded has step 2.
\<close>

theorem steps_start_at_one_counterexample:
  "map_sum id (\<lambda>r. map step (observations r)) (run gw_text_first 10 ''q'') = Inr [2]
   \<and> \<not> spec_steps_result (run gw_text_first 10 ''q'')"
  by code_simp

theorem loop_detection_terminates_witness:
  "plan_step gw_repeat 2 [sql_obs 1, sql_obs 2] (Some ''1. consultar'') = Inr (Some ''1. consultar'')
   \<and> act gw_repeat 2 = sql_call
   \<and> MAX_LOOP_REPEATS \<le> count_list (map signature [sql_obs 1, sql_obs 2, sql_obs 3])
                           (signature (last [sql_obs 1, sql_obs 2, sql_obs 3]))
   \<and> list_all (\<lambda>o1. count_typed (obs_output o1)) [sql_obs 1, sql_obs 2, sql_obs 3]
   \<and> (\<exists>s. build_partial_summary ''q'' [sql_obs 1, sql_obs 2, sql_obs 3] = Inr s
         \<and> run_loop gw_repeat 10 ''q'' [2, 3, 4, 5, 6, 7, 8, 9] [sql_obs 1, sql_obs 2] (Some ''1. consultar'')
             = Inr \<lparr>content = s, plan = Some ''1. consultar'',
                    observations = [sql_obs 1, sql_obs 2, sql_obs 3],
                    iterations = 3, finished_by = None,
                    error = Some ''loop_detected'', sources = None, confidence = None,
                    completed = None\<rparr>)
   \<and> map_sum id (\<lambda>r. (iterations r, error r)) (run gw_repeat 10 ''q'') = Inr (3, Some ''loop_detected'')
   \<and> map_sum id (\<lambda>r. (iterations r, error r)) (run gw_repeat 25 ''q'') = Inr (3, Some ''loop_detected'')"
proof -
  have h5l: "list_all (\<lambda>o1. count_typed (obs_output o1)) [sql_obs 1, sql_obs 2, sql_obs 3]"
    by code_simp
  have h1: "plan_step gw_repeat 2 [sql_obs 1, sql_obs 2] (Some ''1. consultar'') = Inr (Some ''1. consultar'')"
    by code_simp
  have h2: "act gw_repeat 2 = GwTool ''sql_query'' (PDict [(''query'', PStr ''SELECT 1 FROM afiliados'')])
                (PDict [(''query'', PStr ''SELECT 1 FROM afiliados LIMIT 100''),
                        (''results'', PList []), (''count'', PInt 0)])"
    by (simp add: gw_repeat_def sql_call_def)
  have h3: "[sql_obs 1, sql_obs 2, sql_obs 3] = [sql_obs 1, sql_obs 2] @
      [\<lparr>step = 2 + 1, tool = ''sql_query'',
        obs_input = PDict [(''query'', PStr ''SELECT 1 FROM afiliados'')],
        obs_output = PDict [(''query'', PStr ''SELECT 1 FROM afiliados LIMIT 100''),
                        (''results'', PList []), (''count'', PInt 0)]\<rparr>]"
    by (simp add: sql_obs_def)
  have h4: "MAX_LOOP_REPEATS \<le> count_list (map signature [sql_obs 1, sql_obs 2, sql_obs 3])
                           (signature (last [sql_obs 1, sql_obs 2, sql_obs 3]))"
    by code_simp
  have h5: "\<forall>o1 \<in> set [sql_obs 1, sql_obs 2, sql_obs 3]. count_typed (obs_output o1)"
    by code_simp
  have r1: "map_sum id (\<lambda>r. (iterations r, error r)) (run gw_repeat 10 ''q'') = Inr (3, Some ''loop_detected'')"
    by code_simp
  have r2: "map_sum id (\<lambda>r. (iterations r, error r)) (run gw_repeat 25 ''q'') = Inr (3, Some ''loop_detected'')"
    by code_simp
  from loop_detection_terminates[OF h1 h2 h3 h4 h5, of "''q''" 10 "[3, 4, 5, 6, 7, 8, 9]"]
  have "\<exists>s. build_partial_summary ''q'' [sql_obs 1, sql_obs 2, sql_obs 3] = Inr s
         \<and> run_loop gw_repeat 10 ''q'' [2, 3, 4, 5, 6, 7, 8, 9] [sql_obs 1, sql_obs 2] (Some ''1. consultar'')
             = Inr \<lparr>content = s, plan = Some ''1. consultar'',
                    observations = [sql_obs 1, sql_obs 2, sql_obs 3],
                    iterations = 3, finished_by = None,
                    error = Some ''loop_detected'', sources = None, confidence = None,
                    completed = None\<rparr>"
    by simp
  with h1 h2 h4 h5l r1 r2 show ?thesis by (simp add: sql_call_def)
qed

section \<open>Proofs: retrieval\<close>















section \<open>Proofs: structured-query tool\<close>









































section \<open>Proofs: normalisation of RUT literals\<close>



















end
